theory Spec2Isabelle
  imports Main
begin

section \<open>Python exceptions\<close>

text \<open>
  The notebooks signal failure with Python exceptions. Each exception that a modelled
  snippet can raise is a constructor; a function that may raise returns a sum whose
  left injection carries the exception.
\<close>

datatype py_error =
    StopIteration
  | TypeError
  | ValueError
  | UnboundLocalError
  | NotImplementedError
  | KeyError

section \<open>Iterators and generators\<close>

subsection \<open>The class \<open>Countdown\<close>\<close>

text \<open>
  \<^verbatim>\<open>
  class Countdown:
      def __init__(self, start):
          self.current = start
      def __iter__(self):
          return self
      def __next__(self):
          if self.current > 0:
              self.current -= 1
              return self.current + 1
          else:
              raise StopIteration
  \<close>
  The object is a record with the one attribute; \<open>__next__\<close> returns the value
  together with the mutated object, or the exception (the object is then untouched).
\<close>

record Countdown =
  current :: int

definition Countdown_init :: "int \<Rightarrow> Countdown" where
  "Countdown_init start = \<lparr>current = start\<rparr>"

definition Countdown_next :: "Countdown \<Rightarrow> py_error + int \<times> Countdown" where
  "Countdown_next self =
     (if current self > 0
      then (let self' = self\<lparr>current := current self - 1\<rparr>
            in Inr (current self' + 1, self'))
      else Inl StopIteration)"

text \<open>
  \<open>for number in countdown: print(number)\<close> calls \<open>__next__\<close> until it raises
  \<open>StopIteration\<close>; the model collects the values handed to the loop body.
\<close>

function Countdown_for :: "Countdown \<Rightarrow> int list" where
  "Countdown_for self =
     (case Countdown_next self of
        Inl e \<Rightarrow> []
      | Inr (number, self') \<Rightarrow> number # Countdown_for self')"
  by pat_completeness auto
termination
  by (relation "measure (\<lambda>self. nat (current self))")
     (auto simp: Countdown_next_def Let_def split: if_splits)

text \<open>
  The object after \<open>k\<close> calls of \<open>__next__\<close>; a call that raises leaves it as it is.
\<close>

fun Countdown_after :: "nat \<Rightarrow> Countdown \<Rightarrow> Countdown" where
  "Countdown_after 0 self = self"
| "Countdown_after (Suc k) self =
     (case Countdown_next self of
        Inl e \<Rightarrow> Countdown_after k self
      | Inr (number, self') \<Rightarrow> Countdown_after k self')"

subsection \<open>The generator \<open>countdown_generator\<close>\<close>

text \<open>
  \<^verbatim>\<open>
  def countdown_generator(start):
      current = start
      while current > 0:
          yield current
          current -= 1
  \<close>
  A generator object is its frame: not yet started (holding the argument), suspended
  at the \<open>yield\<close> (holding the local \<open>current\<close>, written \<open>cur\<close>), or finished.
  \<open>next\<close> resumes the frame up to the following \<open>yield\<close> or to the end of the body.
\<close>

datatype countdown_frame =
    CG_Created int
  | CG_Suspended int
  | CG_Finished

definition countdown_while :: "int \<Rightarrow> (py_error + int) \<times> countdown_frame" where
  "countdown_while cur =
     (if cur > 0 then (Inr cur, CG_Suspended cur)
      else (Inl StopIteration, CG_Finished))"

fun countdown_generator_next :: "countdown_frame \<Rightarrow> (py_error + int) \<times> countdown_frame" where
  "countdown_generator_next (CG_Created start) = countdown_while start"
| "countdown_generator_next (CG_Suspended cur) = countdown_while (cur - 1)"
| "countdown_generator_next CG_Finished = (Inl StopIteration, CG_Finished)"

definition countdown_generator :: "int \<Rightarrow> countdown_frame" where
  "countdown_generator start = CG_Created start"

fun countdown_frame_size :: "countdown_frame \<Rightarrow> nat" where
  "countdown_frame_size (CG_Created start) = nat start + 1"
| "countdown_frame_size (CG_Suspended cur) = nat cur"
| "countdown_frame_size CG_Finished = 0"

function countdown_generator_for :: "countdown_frame \<Rightarrow> int list" where
  "countdown_generator_for g =
     (case countdown_generator_next g of
        (Inl e, g') \<Rightarrow> []
      | (Inr number, g') \<Rightarrow> number # countdown_generator_for g')"
  by pat_completeness auto
termination
proof (relation "measure countdown_frame_size")
  show "wf (measure countdown_frame_size)" by simp
next
  fix g :: countdown_frame and x1 g' number
  assume "(x1, g') = countdown_generator_next g" and "x1 = Inr number"
  then show "(g', g) \<in> measure countdown_frame_size"
    by (cases g) (auto simp: countdown_while_def split: if_splits)
qed

subsection \<open>The generator \<open>fibonacci_generator\<close>\<close>

text \<open>
  \<^verbatim>\<open>
  def fibonacci_generator():
      a, b = 0, 1
      while True:
          yield a
          a, b = b, a + b
  \<close>
  The frame is either not yet started or suspended at the \<open>yield\<close> with the locals
  \<open>a\<close> and \<open>b\<close>; the body never ends, so \<open>next\<close> always yields.
\<close>

datatype fibonacci_frame =
    FG_Created
  | FG_Suspended int int

fun fibonacci_generator_next :: "fibonacci_frame \<Rightarrow> int \<times> fibonacci_frame" where
  "fibonacci_generator_next FG_Created = (0, FG_Suspended 0 1)"
| "fibonacci_generator_next (FG_Suspended a b) = (b, FG_Suspended b (a + b))"

definition fibonacci_generator :: fibonacci_frame where
  "fibonacci_generator = FG_Created"

text \<open>\<open>for _ in range(k): print(next(fib_gen))\<close>: the first \<open>k\<close> values.\<close>

fun fibonacci_take :: "nat \<Rightarrow> fibonacci_frame \<Rightarrow> int list" where
  "fibonacci_take 0 g = []"
| "fibonacci_take (Suc k) g =
     (case fibonacci_generator_next g of (v, g') \<Rightarrow> v # fibonacci_take k g')"

text \<open>The Fibonacci sequence of the textbook, as a reference.\<close>

fun Fib :: "nat \<Rightarrow> int" where
  "Fib 0 = 0"
| "Fib (Suc 0) = 1"
| "Fib (Suc (Suc n)) = Fib (Suc n) + Fib n"

subsection \<open>The generator \<open>accumulator\<close>\<close>

text \<open>
  \<^verbatim>\<open>
  def accumulator():
      total = 0
      while True:
          value = yield total
          if value is not None:
              total += value

  acc = accumulator()
  next(acc)  # Initialize the generator
  print(acc.send(10))  # Output: 0
  print(acc.send(20))  # Output: 10
  print(acc.send(30))  # Output: 30
  \<close>
  The frame is not yet started, or suspended at the \<open>yield\<close> with the local
  \<open>total\<close> (written \<open>tot\<close>). \<open>send(v)\<close> resumes the frame with \<open>v\<close> as the
  value of the \<open>yield\<close> expression (the local \<open>value\<close>, written \<open>sent\<close>) and
  runs it to the next \<open>yield\<close>, whose operand it returns; the sent value is an
  \<open>int option\<close>, \<open>None\<close> being Python's \<open>None\<close>.
  A frame that has not started accepts \<open>None\<close> only.
\<close>

datatype accumulator_frame =
    ACC_Created
  | ACC_Suspended int

fun accumulator_send :: "int option \<Rightarrow> accumulator_frame \<Rightarrow> (py_error + int) \<times> accumulator_frame" where
  "accumulator_send None ACC_Created = (Inr 0, ACC_Suspended 0)"
| "accumulator_send (Some v) ACC_Created = (Inl TypeError, ACC_Created)"
| "accumulator_send sent (ACC_Suspended tot) =
     (let tot' = (case sent of None \<Rightarrow> tot | Some v \<Rightarrow> tot + v)
      in (Inr tot', ACC_Suspended tot'))"

definition accumulator :: accumulator_frame where
  "accumulator = ACC_Created"

definition accumulator_next :: "accumulator_frame \<Rightarrow> (py_error + int) \<times> accumulator_frame" where
  "accumulator_next g = accumulator_send None g"

text \<open>The results of sending a list of values one after the other.\<close>

fun accumulator_sends :: "int option list \<Rightarrow> accumulator_frame \<Rightarrow> (py_error + int) list" where
  "accumulator_sends [] g = []"
| "accumulator_sends (v # vs) g =
     (case accumulator_send v g of (r, g') \<Rightarrow> r # accumulator_sends vs g')"

text \<open>The usage lines of the cell: prime the generator, then the three printed sends.\<close>

definition accumulator_usage :: "(py_error + int) list" where
  "accumulator_usage =
     (case accumulator_next accumulator of
        (primed, acc) \<Rightarrow> accumulator_sends [Some 10, Some 20, Some 30] acc)"

section \<open>Python values\<close>

text \<open>
  The decorators are applied to arbitrary Python objects. The values modelled are
  \<open>None\<close>, booleans, integers, strings and lists (floating point is left out).
  \<open>bool\<close> is a subclass of \<open>int\<close>, so \<open>isinstance(True, int)\<close> holds and
  \<open>True\<close> counts as \<open>1\<close> in arithmetic.
\<close>

datatype pyval =
    PyNone
  | PyBool bool
  | PyInt int
  | PyStr string
  | PyList "pyval list"

fun isinstance_int :: "pyval \<Rightarrow> bool" where
  "isinstance_int (PyBool b) = True"
| "isinstance_int (PyInt i) = True"
| "isinstance_int v = False"

fun as_int :: "pyval \<Rightarrow> int option" where
  "as_int (PyBool b) = Some (if b then 1 else 0)"
| "as_int (PyInt i) = Some i"
| "as_int v = None"

text \<open>Sequence repetition \<open>s * n\<close>; a count below one gives the empty sequence.\<close>

fun py_repeat :: "pyval \<Rightarrow> int \<Rightarrow> py_error + pyval" where
  "py_repeat (PyStr s) n = Inr (PyStr (concat (replicate (nat n) s)))"
| "py_repeat (PyList xs) n = Inr (PyList (concat (replicate (nat n) xs)))"
| "py_repeat v n = Inl TypeError"

text \<open>The operator \<open>x * y\<close>.\<close>

definition py_mul :: "pyval \<Rightarrow> pyval \<Rightarrow> py_error + pyval" where
  "py_mul x y =
     (case (as_int x, as_int y) of
        (Some a, Some b) \<Rightarrow> Inr (PyInt (a * b))
      | (Some a, None) \<Rightarrow> py_repeat y a
      | (None, Some b) \<Rightarrow> py_repeat x b
      | (None, None) \<Rightarrow> Inl TypeError)"

text \<open>
  A dictionary hashes its keys: a key that holds a list is unhashable and the lookup
  raises \<open>TypeError\<close>; keys that compare equal with \<open>==\<close> are one key, so
  \<open>True\<close> and \<open>1\<close> (and \<open>False\<close> and \<open>0\<close>) coincide. \<open>hash_key\<close> gives
  the key under which a value is stored, \<open>tuple_key\<close> the key of a tuple of values.
\<close>

datatype pykey = KNone | KInt int | KStr string

fun hash_key :: "pyval \<Rightarrow> pykey option" where
  "hash_key PyNone = Some KNone"
| "hash_key (PyBool b) = Some (KInt (if b then 1 else 0))"
| "hash_key (PyInt i) = Some (KInt i)"
| "hash_key (PyStr s) = Some (KStr s)"
| "hash_key (PyList xs) = None"

fun tuple_key :: "pyval list \<Rightarrow> pykey list option" where
  "tuple_key [] = Some []"
| "tuple_key (v # vs) =
     (case hash_key v of
        None \<Rightarrow> None
      | Some k \<Rightarrow> (case tuple_key vs of None \<Rightarrow> None | Some ks \<Rightarrow> Some (k # ks)))"

fun type_name :: "pyval \<Rightarrow> string" where
  "type_name PyNone = ''NoneType''"
| "type_name (PyBool b) = ''bool''"
| "type_name (PyInt i) = ''int''"
| "type_name (PyStr s) = ''str''"
| "type_name (PyList xs) = ''list''"

section \<open>Decorators\<close>

text \<open>
  A Python function is modelled by what a call does: it takes its arguments and the
  state it can touch, and raises or returns its result with the new state.
  \<open>returning\<close> is a function that never raises.
\<close>

type_synonym ('a, 's, 'r) pyfun = "'a \<Rightarrow> 's \<Rightarrow> py_error + 'r \<times> 's"


text \<open>A function whose result depends on its arguments only and that touches no state.\<close>

definition pure_function :: "('a \<Rightarrow> 'r) \<Rightarrow> ('a, 's, 'r) pyfun" where
  "pure_function f args s = Inr (f args, s)"

text \<open>
  A call passes positional arguments and keyword arguments. Before the body of the called
  function runs, Python binds them to its parameter list, and raises \<open>TypeError\<close>
  when they do not fit. The parameter lists of the notebooks have named parameters
  without defaults, and optionally \<open>*args\<close> and \<open>**kwargs\<close>:
  \<^item> positional arguments fill the named parameters from the left; those left over go
    to \<open>*args\<close>, and are an error without it;
  \<^item> a keyword argument fills the named parameter of its name, and is an error when
    that parameter is filled already; a keyword that names no parameter goes to
    \<open>**kwargs\<close>, and is an error without it;
  \<^item> a named parameter left unfilled is an error.
\<close>

record parameters =
  named :: "string list"
  var_positional :: bool
  var_keyword :: bool

record 'v bound =
  named_values :: "(string \<times> 'v) list"
  star_args :: "'v list"
  star_kwargs :: "(string \<times> 'v) list"

fun bind_keywords ::
  "parameters \<Rightarrow> (string \<times> 'v) list \<Rightarrow> (string \<times> 'v) list \<Rightarrow> (string \<times> 'v) list
     \<Rightarrow> py_error + (string \<times> 'v) list \<times> (string \<times> 'v) list" where
  "bind_keywords ps filled extra [] = Inr (filled, extra)"
| "bind_keywords ps filled extra ((name, v) # kwargs) =
     (if name \<in> set (named ps)
      then (if name \<in> set (map fst filled) then Inl TypeError
            else bind_keywords ps (filled @ [(name, v)]) extra kwargs)
      else if var_keyword ps \<and> name \<notin> set (map fst extra)
      then bind_keywords ps filled (extra @ [(name, v)]) kwargs
      else Inl TypeError)"

definition bind :: "parameters \<Rightarrow> 'v list \<Rightarrow> (string \<times> 'v) list \<Rightarrow> py_error + 'v bound" where
  "bind ps args kwargs =
     (if length (named ps) < length args \<and> \<not> var_positional ps then Inl TypeError
      else (case bind_keywords ps (zip (named ps) args) [] kwargs of
              Inl e \<Rightarrow> Inl e
            | Inr (filled, extra) \<Rightarrow>
                (if set (named ps) \<subseteq> set (map fst filled)
                 then Inr \<lparr>named_values = filled,
                          star_args = drop (length (named ps)) args,
                          star_kwargs = extra\<rparr>
                 else Inl TypeError)))"

text \<open>
  A function as it is called: on the positional and the keyword arguments of the call
  and the state.
\<close>

type_synonym ('v, 's, 'r) pycallable =
  "'v list \<Rightarrow> (string \<times> 'v) list \<Rightarrow> 's \<Rightarrow> py_error + 'r \<times> 's"

text \<open>A script calls a function on one argument after the other and stops at the first exception.\<close>

fun call_each :: "('a, 's, 'r) pyfun \<Rightarrow> 'a list \<Rightarrow> 's \<Rightarrow> py_error + 'r list \<times> 's" where
  "call_each func [] s = Inr ([], s)"
| "call_each func (a # as) s =
     (case func a s of
        Inl e \<Rightarrow> Inl e
      | Inr (r, s') \<Rightarrow>
          (case call_each func as s' of
             Inl e \<Rightarrow> Inl e
           | Inr (rs, s'') \<Rightarrow> Inr (r # rs, s'')))"

subsection \<open>\<open>repeat\<close>\<close>

text \<open>
  \<^verbatim>\<open>
  def repeat(num_times):
      def decorator_repeat(func):
          def wrapper(*args, **kwargs):
              for _ in range(num_times):
                  result = func(*args, **kwargs)
              return result
          return wrapper
      return decorator_repeat
  \<close>
  The local \<open>result\<close> is unbound until the loop body has run once: it is an
  option, and \<open>return result\<close> on the unbound local raises \<open>UnboundLocalError\<close>.
  \<open>range(num_times)\<close> has \<open>nat num_times\<close> elements (none when \<open>num_times\<close>
  is below one). The arguments are passed on as they come, so they are one value here.
\<close>

fun repeat_for :: "nat \<Rightarrow> ('a, 's, 'r) pyfun \<Rightarrow> 'a \<Rightarrow> 'r option \<times> 's \<Rightarrow> py_error + 'r option \<times> 's" where
  "repeat_for 0 func args (result, s) = Inr (result, s)"
| "repeat_for (Suc k) func args (result, s) =
     (case func args s of
        Inl e \<Rightarrow> Inl e
      | Inr (r, s') \<Rightarrow> repeat_for k func args (Some r, s'))"

definition repeat :: "int \<Rightarrow> ('a, 's, 'r) pyfun \<Rightarrow> ('a, 's, 'r) pyfun" where
  "repeat num_times func args s =
     (case repeat_for (nat num_times) func args (None, s) of
        Inl e \<Rightarrow> Inl e
      | Inr (None, s') \<Rightarrow> Inl UnboundLocalError
      | Inr (Some result, s') \<Rightarrow> Inr (result, s'))"

text \<open>
  The wrapper as it is called. Its parameter list is \<open>(*args, **kwargs)\<close>, which
  takes every positional and every keyword argument, and the body passes both on to
  the wrapped function.
\<close>

definition repeat_wrapper :: "int \<Rightarrow> ('v, 's, 'r) pycallable \<Rightarrow> ('v, 's, 'r) pycallable" where
  "repeat_wrapper num_times func args kwargs s =
     (case bind \<lparr>named = [], var_positional = True, var_keyword = True\<rparr> args kwargs of
        Inl e \<Rightarrow> Inl e
      | Inr b \<Rightarrow>
          repeat num_times (\<lambda>(args', kwargs'). func args' kwargs') (star_args b, star_kwargs b) s)"



subsection \<open>\<open>validate_input\<close> and \<open>multiply\<close>\<close>

text \<open>
  \<^verbatim>\<open>
  def validate_input(func):
      def wrapper(x, y):
          if not isinstance(x, int) or not isinstance(y, int):
              raise ValueError("Both x and y need to be integers")
          return func(x, y)
      return wrapper

  @validate_input
  def multiply(x, y):
      return x * y
  \<close>
\<close>

definition validate_input ::
  "(pyval \<Rightarrow> pyval \<Rightarrow> py_error + pyval) \<Rightarrow> pyval \<Rightarrow> pyval \<Rightarrow> py_error + pyval" where
  "validate_input func x y =
     (if \<not> isinstance_int x \<or> \<not> isinstance_int y then Inl ValueError
      else func x y)"

definition multiply_func :: "pyval \<Rightarrow> pyval \<Rightarrow> py_error + pyval" where
  "multiply_func x y = py_mul x y"

definition multiply :: "pyval \<Rightarrow> pyval \<Rightarrow> py_error + pyval" where
  "multiply = validate_input multiply_func"

subsection \<open>\<open>memoize\<close> and \<open>cache_results\<close>\<close>

text \<open>
  \<^verbatim>\<open>
  def memoize(func):
      cache = {}
      def wrapper(*args):
          if args in cache:
              return cache[args]
          else:
              result = func(*args)
              cache[args] = result
              return result
      return wrapper
  \<close>
  The dictionary of the closure is a map from keys to results, threaded through the
  calls; it starts as \<open>Map.empty\<close>. \<open>key_of\<close> is the dictionary's hashing of the
  argument tuple: \<open>None\<close> for an unhashable tuple, on which \<open>args in cache\<close>
  raises \<open>TypeError\<close>. The wrapped function receives the cache as its state, since
  it may call the wrapper again (as the decorated \<open>fibonacci\<close> does).
\<close>

definition memoize ::
  "('a \<Rightarrow> 'k option) \<Rightarrow> ('a, 'k \<rightharpoonup> 'r, 'r) pyfun \<Rightarrow> ('a, 'k \<rightharpoonup> 'r, 'r) pyfun" where
  "memoize key_of func args cache =
     (case key_of args of
        None \<Rightarrow> Inl TypeError
      | Some k \<Rightarrow>
          (case cache k of
             Some cached \<Rightarrow> Inr (cached, cache)
           | None \<Rightarrow>
               (case func args cache of
                  Inl e \<Rightarrow> Inl e
                | Inr (result, cache') \<Rightarrow> Inr (result, cache'(k \<mapsto> result)))))"

text \<open>
  \<^verbatim>\<open>
  def cache_results(func):
      cache = {}
      def wrapper(*args):
          if args in cache:
              print("Returning cached result")
              return cache[args]
          else:
              result = func(*args)
              cache[args] = result
              return result
      return wrapper
  \<close>
  The state is the cache together with the lines printed so far.
\<close>

definition cache_results ::
  "('a \<Rightarrow> 'k option) \<Rightarrow> ('a, ('k \<rightharpoonup> 'r) \<times> string list, 'r) pyfun
     \<Rightarrow> ('a, ('k \<rightharpoonup> 'r) \<times> string list, 'r) pyfun" where
  "cache_results key_of func args = (\<lambda>(cache, out).
     (case key_of args of
        None \<Rightarrow> Inl TypeError
      | Some k \<Rightarrow>
          (case cache k of
             Some cached \<Rightarrow> Inr (cached, (cache, out @ [''Returning cached result'']))
           | None \<Rightarrow>
               (case func args (cache, out) of
                  Inl e \<Rightarrow> Inl e
                | Inr (result, (cache', out')) \<Rightarrow> Inr (result, (cache'(k \<mapsto> result), out'))))))"

text \<open>
  The two wrappers as they are called. Both are declared \<open>def wrapper(*args)\<close>: no
  named parameter, \<open>*args\<close>, no \<open>**kwargs\<close>. Once the call is bound the body
  runs on the tuple \<open>args\<close>, and it calls the wrapped function as
  \<open>func(*args)\<close>, with positional arguments only.
\<close>

definition memoize_wrapper ::
  "('v list \<Rightarrow> 'k option) \<Rightarrow> ('v, 'k \<rightharpoonup> 'r, 'r) pycallable \<Rightarrow> ('v, 'k \<rightharpoonup> 'r, 'r) pycallable" where
  "memoize_wrapper key_of func args kwargs cache =
     (case bind \<lparr>named = [], var_positional = True, var_keyword = False\<rparr> args kwargs of
        Inl e \<Rightarrow> Inl e
      | Inr b \<Rightarrow> memoize key_of (\<lambda>args'. func args' []) (star_args b) cache)"

definition cache_results_wrapper ::
  "('v list \<Rightarrow> 'k option) \<Rightarrow> ('v, ('k \<rightharpoonup> 'r) \<times> string list, 'r) pycallable
     \<Rightarrow> ('v, ('k \<rightharpoonup> 'r) \<times> string list, 'r) pycallable" where
  "cache_results_wrapper key_of func args kwargs st =
     (case bind \<lparr>named = [], var_positional = True, var_keyword = False\<rparr> args kwargs of
        Inl e \<Rightarrow> Inl e
      | Inr b \<Rightarrow> cache_results key_of (\<lambda>args'. func args' []) (star_args b) st)"

text \<open>
  \<^verbatim>\<open>
  @cache_results
  def compute_expensive(x):
      time.sleep(2)  # Simulating a time-consuming operation
      return x * x
  \<close>
  The undecorated function has the one parameter \<open>x\<close>, which a call may pass by
  position or by keyword. The delay is not modelled.
\<close>

definition compute_expensive_func :: "(pyval, 's, pyval) pycallable" where
  "compute_expensive_func args kwargs s =
     (case bind \<lparr>named = [''x''], var_positional = False, var_keyword = False\<rparr> args kwargs of
        Inl e \<Rightarrow> Inl e
      | Inr b \<Rightarrow>
          (case map_of (named_values b) ''x'' of
             None \<Rightarrow> Inl TypeError
           | Some x \<Rightarrow> (case py_mul x x of Inl e \<Rightarrow> Inl e | Inr r \<Rightarrow> Inr (r, s))))"

definition compute_expensive ::
  "(pyval, (pykey list \<rightharpoonup> pyval) \<times> string list, pyval) pycallable" where
  "compute_expensive = cache_results_wrapper tuple_key compute_expensive_func"

text \<open>
  \<^verbatim>\<open>
  @memoize
  def fibonacci(n):
      if n < 2:
          return n
      return fibonacci(n-1) + fibonacci(n-2)
  \<close>
  The name \<open>fibonacci\<close> is bound to the wrapper, so the body calls the wrapper:
  \<open>fibonacci_func\<close> is the undecorated body and \<open>fibonacci\<close> the wrapper around it,
  the cache keyed by the integer argument (an integer is its own key).
\<close>

function fibonacci_func :: "(int, int \<rightharpoonup> int, int) pyfun"
  and fibonacci :: "(int, int \<rightharpoonup> int, int) pyfun" where
  "fibonacci_func n cache =
     (if n < 2 then Inr (n, cache)
      else (case fibonacci (n - 1) cache of
              Inl e \<Rightarrow> Inl e
            | Inr (x, cache1) \<Rightarrow>
                (case fibonacci (n - 2) cache1 of
                   Inl e \<Rightarrow> Inl e
                 | Inr (y, cache2) \<Rightarrow> Inr (x + y, cache2))))"
| "fibonacci n cache =
     (case cache n of
        Some cached \<Rightarrow> Inr (cached, cache)
      | None \<Rightarrow>
          (case fibonacci_func n cache of
             Inl e \<Rightarrow> Inl e
           | Inr (result, cache') \<Rightarrow> Inr (result, cache'(n \<mapsto> result))))"
  by pat_completeness auto
termination
  by (relation "measure (\<lambda>x. case x of Inl (n, cache) \<Rightarrow> 2 * nat n | Inr (n, cache) \<Rightarrow> 2 * nat n + 1)")
     auto

section \<open>Design patterns\<close>

subsection \<open>\<open>SingletonMeta\<close>\<close>

text \<open>
  \<^verbatim>\<open>
  class SingletonMeta(type):
      _instances = {}  # Dictionary to hold the single instance of each class
      def __call__(cls, *args, **kwargs):
          if cls not in cls._instances:
              # Create a new instance if one doesn't exist
              cls._instances[cls] = super().__call__(*args, **kwargs)
          return cls._instances[cls]
  \<close>
  An instance is its identity, a heap address; \<open>is\<close> compares addresses.
  \<open>super().__call__\<close> allocates the next fresh address. The state is the dictionary
  \<open>_instances\<close> and the allocator.
\<close>

record 'c SingletonMeta =
  instances :: "'c \<rightharpoonup> nat"
  next_address :: nat

definition SingletonMeta_call :: "'c \<Rightarrow> 'c SingletonMeta \<Rightarrow> py_error + nat \<times> 'c SingletonMeta" where
  "SingletonMeta_call cls m =
     (let m' = (if instances m cls = None
                then m\<lparr>instances := (instances m)(cls \<mapsto> next_address m),
                       next_address := Suc (next_address m)\<rparr>
                else m)
      in (case instances m' cls of
            None \<Rightarrow> Inl KeyError
          | Some obj \<Rightarrow> Inr (obj, m')))"

text \<open>The state after instantiating the listed classes, one after the other.\<close>

fun SingletonMeta_calls :: "'c list \<Rightarrow> 'c SingletonMeta \<Rightarrow> 'c SingletonMeta" where
  "SingletonMeta_calls [] m = m"
| "SingletonMeta_calls (cls # clss) m =
     (case SingletonMeta_call cls m of
        Inl e \<Rightarrow> SingletonMeta_calls clss m
      | Inr (obj, m') \<Rightarrow> SingletonMeta_calls clss m')"

subsection \<open>\<open>Subject\<close> and its observers\<close>

text \<open>
  \<^verbatim>\<open>
  class Subject:
      def __init__(self):
          self._observers = []
      def attach(self, observer):
          self._observers.append(observer)
      def detach(self, observer):
          self._observers.remove(observer)
      def notify(self, message):
          for observer in self._observers:
              observer.update(message)

  class Observer:
      def update(self, message):
          raise NotImplementedError("Subclasses must implement this method")
  class ConcreteObserverA(Observer):
      def update(self, message):
          print("ConcreteObserverA received:", message)
  class ConcreteObserverB(Observer):
      def update(self, message):
          print("ConcreteObserverB received:", message)
  \<close>
  An observer object is its identity and its class. The world that \<open>update\<close> acts
  on is the printed lines; beside them the model logs every invocation of \<open>update\<close>
  (the object and the message), the one that raises included.
\<close>

datatype observer_class = Observer | ConcreteObserverA | ConcreteObserverB

record observer =
  address :: nat
  class_of :: observer_class

record world =
  stdout :: "string list"
  update_calls :: "(observer \<times> string) list"

record Subject =
  observers :: "observer list"

definition Subject_init :: Subject where
  "Subject_init = \<lparr>observers = []\<rparr>"

definition attach :: "Subject \<Rightarrow> observer \<Rightarrow> Subject" where
  "attach self obs = self\<lparr>observers := observers self @ [obs]\<rparr>"

definition detach :: "Subject \<Rightarrow> observer \<Rightarrow> py_error + Subject" where
  "detach self obs =
     (if obs \<in> set (observers self) then Inr (self\<lparr>observers := remove1 obs (observers self)\<rparr>)
      else Inl ValueError)"

fun update_method :: "observer_class \<Rightarrow> string \<Rightarrow> string list \<Rightarrow> py_error + string list" where
  "update_method Observer message out = Inl NotImplementedError"
| "update_method ConcreteObserverA message out = Inr (out @ [''ConcreteObserverA received: '' @ message])"
| "update_method ConcreteObserverB message out = Inr (out @ [''ConcreteObserverB received: '' @ message])"

definition update :: "observer \<Rightarrow> string \<Rightarrow> world \<Rightarrow> py_error option \<times> world" where
  "update obs message w =
     (let w' = w\<lparr>update_calls := update_calls w @ [(obs, message)]\<rparr>
      in (case update_method (class_of obs) message (stdout w') of
            Inl e \<Rightarrow> (Some e, w')
          | Inr out \<Rightarrow> (None, w'\<lparr>stdout := out\<rparr>)))"

text \<open>The \<open>for\<close> loop of \<open>notify\<close> over the entries that remain; an exception ends it.\<close>

fun notify_for :: "observer list \<Rightarrow> string \<Rightarrow> world \<Rightarrow> py_error option \<times> world" where
  "notify_for [] message w = (None, w)"
| "notify_for (obs # rest) message w =
     (case update obs message w of
        (Some e, w') \<Rightarrow> (Some e, w')
      | (None, w') \<Rightarrow> notify_for rest message w')"

definition notify :: "Subject \<Rightarrow> string \<Rightarrow> world \<Rightarrow> py_error option \<times> Subject \<times> world" where
  "notify self message w =
     (case notify_for (observers self) message w of
        (exn, w') \<Rightarrow> (exn, self, w'))"

definition concrete :: "observer \<Rightarrow> bool" where
  "concrete obs = (class_of obs \<noteq> Observer)"

definition printed_line :: "observer \<Rightarrow> string \<Rightarrow> string" where
  "printed_line obs message =
     (case class_of obs of
        ConcreteObserverA \<Rightarrow> ''ConcreteObserverA received: '' @ message
      | ConcreteObserverB \<Rightarrow> ''ConcreteObserverB received: '' @ message
      | Observer \<Rightarrow> [])"

section \<open>Reference functions and example arguments\<close>

text \<open>
  What the decorated \<open>fibonacci\<close> is to compute: the argument itself below zero
  (where the body returns \<open>n\<close> at once), the Fibonacci number otherwise.
\<close>

definition fibonacci_spec :: "int \<Rightarrow> int" where
  "fibonacci_spec n = (if n < 0 then n else Fib (nat n))"

text \<open>
  \<^verbatim>\<open>
  @repeat(num_times=3)
  def greet(name):
      print(f"Hello {name}")
  \<close>
  The undecorated function prints one line and returns \<open>None\<close>.
\<close>

definition greet_func :: "string \<Rightarrow> string list \<Rightarrow> unit \<times> string list" where
  "greet_func name out = ((), out @ [''Hello '' @ name])"


text \<open>
  The undecorated \<open>greet\<close> as it is called, with its one parameter \<open>name\<close>, and
  the decorated one.
\<close>

definition greet_callable :: "(string, string list, unit) pycallable" where
  "greet_callable args kwargs out =
     (case bind \<lparr>named = [''name''], var_positional = False, var_keyword = False\<rparr> args kwargs of
        Inl e \<Rightarrow> Inl e
      | Inr b \<Rightarrow>
          (case map_of (named_values b) ''name'' of
             None \<Rightarrow> Inl TypeError
           | Some name \<Rightarrow> Inr (greet_func name out)))"

definition greet_wrapper :: "(string, string list, unit) pycallable" where
  "greet_wrapper = repeat_wrapper 3 greet_callable"

text \<open>
  A function that tells its arguments apart by their types,
  \<open>def type_names(*args): return [type(a).__name__ for a in args]\<close>,
  as an argument for \<open>memoize\<close>.
\<close>

definition type_names :: "pyval list \<Rightarrow> pyval" where
  "type_names args = PyList (map (\<lambda>v. PyStr (type_name v)) args)"

section \<open>Properties of the iterators and generators\<close>

subsection \<open>The Fibonacci prefix\<close>

lemma fibonacci_take_Suspended:
  "fibonacci_take k (FG_Suspended (Fib n) (Fib (Suc n))) = map (\<lambda>i. Fib (Suc n + i)) [0..<k]"
proof (induction k arbitrary: n)
  case 0
  show ?case by simp
next
  case (Suc k)
  have "fibonacci_take (Suc k) (FG_Suspended (Fib n) (Fib (Suc n)))
        = Fib (Suc n) # fibonacci_take k (FG_Suspended (Fib (Suc n)) (Fib (Suc (Suc n))))"
    by (simp add: add.commute)
  also have "\<dots> = Fib (Suc n) # map (\<lambda>i. Fib (Suc (Suc n) + i)) [0..<k]"
    by (simp only: Suc.IH)
  also have "\<dots> = map (\<lambda>i. Fib (Suc n + i)) [0..<Suc k]"
    by (simp add: upt_rec [of 0 "Suc k"] map_Suc_upt [symmetric] del: upt_Suc)
  finally show ?case .
qed

text \<open>
  Claim C5. For every \<open>k\<close>, the first \<open>k\<close> values produced by
  \<open>fibonacci_generator()\<close> are \<open>F 0, \<dots>, F (k - 1)\<close> for the sequence
  \<open>F 0 = 0\<close>, \<open>F 1 = 1\<close>, \<open>F (n + 2) = F (n + 1) + F n\<close>; the first ten are
  \<open>0, 1, 1, 2, 3, 5, 8, 13, 21, 34\<close>.
\<close>

theorem fibonacci_generator_prefix:
  "fibonacci_take k fibonacci_generator = map Fib [0..<k]
   \<and> fibonacci_take 10 fibonacci_generator = [0, 1, 1, 2, 3, 5, 8, 13, 21, 34]"
proof
  show g: "fibonacci_take k fibonacci_generator = map Fib [0..<k]" for k
  proof (cases k)
    case 0
    then show ?thesis by simp
  next
    case (Suc j)
    have "fibonacci_take (Suc j) FG_Created = Fib 0 # fibonacci_take j (FG_Suspended (Fib 0) (Fib (Suc 0)))"
      by simp
    also have "\<dots> = Fib 0 # map (\<lambda>i. Fib (Suc 0 + i)) [0..<j]"
      by (simp only: fibonacci_take_Suspended)
    also have "\<dots> = map Fib [0..<Suc j]"
      by (simp add: upt_rec [of 0 "Suc j"] map_Suc_upt [symmetric] del: upt_Suc)
    finally show ?thesis by (simp add: Suc fibonacci_generator_def)
  qed
  show "fibonacci_take 10 fibonacci_generator = [0, 1, 1, 2, 3, 5, 8, 13, 21, 34]"
    by (simp add: fibonacci_generator_def eval_nat_numeral)
qed

subsection \<open>Counting down\<close>


lemma map_countdown_step:
  "0 < n \<Longrightarrow> map (\<lambda>k. c - int k) [0..<n] = c # map (\<lambda>k. (c - 1) - int k) [0..<n - 1]"
proof -
  assume "0 < n"
  then obtain m where n: "n = Suc m" by (cases n) auto
  show ?thesis
    unfolding n by (simp add: upt_rec [of 0 "Suc m"] map_Suc_upt [symmetric] del: upt_Suc)
qed

lemma Countdown_for_values:
  "nat (current self) = n \<Longrightarrow> Countdown_for self = map (\<lambda>k. current self - int k) [0..<n]"
proof (induction n arbitrary: self)
  case 0
  then show ?case by (simp add: Countdown_next_def)
next
  case (Suc n)
  let ?self' = "self\<lparr>current := current self - 1\<rparr>"
  from Suc.prems have pos: "current self > 0" by linarith
  then have nxt: "Countdown_next self = Inr (current self, ?self')"
    by (simp add: Countdown_next_def Let_def)
  from Suc.prems have "nat (current ?self') = n" by simp
  then have "Countdown_for ?self' = map (\<lambda>k. current ?self' - int k) [0..<n]"
    by (rule Suc.IH)
  then have "Countdown_for self = current self # map (\<lambda>k. (current self - 1) - int k) [0..<n]"
    using nxt by simp
  then show ?case
    using map_countdown_step [of "Suc n" "current self"] by simp
qed

lemma Countdown_next_nonneg:
  "0 \<le> current self \<Longrightarrow> Countdown_next self = Inr (v, self') \<Longrightarrow> 0 \<le> current self'"
  by (auto simp: Countdown_next_def Let_def split: if_splits)

lemma Countdown_after_nonneg:
  "0 \<le> current self \<Longrightarrow> 0 \<le> current (Countdown_after k self)"
proof (induction k arbitrary: self)
  case 0
  then show ?case by simp
next
  case (Suc k)
  show ?case
  proof (cases "Countdown_next self")
    case (Inl e)
    then show ?thesis using Suc by simp
  next
    case (Inr p)
    obtain v self' where p: "p = (v, self')" by (cases p)
    with Inr Suc.prems have "0 \<le> current self'" by (auto dest: Countdown_next_nonneg)
    then show ?thesis using Inr p Suc.IH by simp
  qed
qed

lemma Countdown_next_raises_iff:
  "0 \<le> current self \<Longrightarrow> (Countdown_next self = Inl StopIteration) = (current self = 0)"
  by (auto simp: Countdown_next_def Let_def)

lemma countdown_generator_for_Suspended:
  "nat cur = Suc n \<Longrightarrow> countdown_generator_for (CG_Suspended cur) = map (\<lambda>k. (cur - 1) - int k) [0..<n]"
proof (induction n arbitrary: cur)
  case 0
  then have "cur = 1" by linarith
  then show ?case by (simp add: countdown_while_def)
next
  case (Suc n)
  from Suc.prems have "cur - 1 > 0" by linarith
  then have nxt: "countdown_generator_next (CG_Suspended cur) = (Inr (cur - 1), CG_Suspended (cur - 1))"
    by (simp add: countdown_while_def)
  from Suc.prems have "nat (cur - 1) = Suc n" by linarith
  then have "countdown_generator_for (CG_Suspended (cur - 1)) = map (\<lambda>k. (cur - 1 - 1) - int k) [0..<n]"
    by (rule Suc.IH)
  then have "countdown_generator_for (CG_Suspended cur) = (cur - 1) # map (\<lambda>k. (cur - 1 - 1) - int k) [0..<n]"
    using nxt by simp
  then show ?case
    using map_countdown_step [of "Suc n" "cur - 1"] by simp
qed

lemma countdown_generator_for_values:
  assumes "1 \<le> start"
  shows "countdown_generator_for (countdown_generator start) = map (\<lambda>k. start - int k) [0..<nat start]"
proof -
  from assms obtain n where n: "nat start = Suc n" by (cases "nat start") auto
  from assms have "countdown_generator_next (CG_Created start) = (Inr start, CG_Suspended start)"
    by (simp add: countdown_while_def)
  then have "countdown_generator_for (CG_Created start) = start # countdown_generator_for (CG_Suspended start)"
    by simp
  also have "\<dots> = start # map (\<lambda>k. (start - 1) - int k) [0..<n]"
    by (simp only: countdown_generator_for_Suspended [OF n])
  also have "\<dots> = map (\<lambda>k. start - int k) [0..<nat start]"
    using map_countdown_step [of "Suc n" start] n by simp
  finally show ?thesis by (simp add: countdown_generator_def)
qed

text \<open>
  Claim C1. For every integer \<open>start \<ge> 1\<close>, iterating \<open>Countdown(start)\<close> yields
  exactly \<open>start, start - 1, \<dots>, 1\<close> in that order; after any number of calls,
  \<open>__next__\<close> raises \<open>StopIteration\<close> exactly when the counter \<open>current\<close> is
  \<open>0\<close>; and iterating \<open>countdown_generator(start)\<close> produces the same sequence.
\<close>

theorem Countdown_counts_down:
  assumes "1 \<le> start"
  shows "Countdown_for (Countdown_init start) = map (\<lambda>k. start - int k) [0..<nat start]
       \<and> (\<forall>k. (Countdown_next (Countdown_after k (Countdown_init start)) = Inl StopIteration)
              = (current (Countdown_after k (Countdown_init start)) = 0))
       \<and> countdown_generator_for (countdown_generator start) = Countdown_for (Countdown_init start)"
proof -
  have a: "Countdown_for (Countdown_init start) = map (\<lambda>k. start - int k) [0..<nat start]"
    using Countdown_for_values [of "Countdown_init start" "nat start"]
    by (simp add: Countdown_init_def)
  from assms have "0 \<le> current (Countdown_init start)" by (simp add: Countdown_init_def)
  then have b: "(Countdown_next (Countdown_after k (Countdown_init start)) = Inl StopIteration)
              = (current (Countdown_after k (Countdown_init start)) = 0)" for k
    by (intro Countdown_next_raises_iff Countdown_after_nonneg)
  from a b countdown_generator_for_values [OF assms] show ?thesis by simp
qed

text \<open>The instance of the notebook, \<open>start = 5\<close>.\<close>

theorem Countdown_counts_down_witness:
  "(1::int) \<le> 5 \<and> Countdown_for (Countdown_init 5) = [5, 4, 3, 2, 1]
   \<and> countdown_generator_for (countdown_generator 5) = [5, 4, 3, 2, 1]
   \<and> Countdown_next (Countdown_after 5 (Countdown_init 5)) = Inl StopIteration
   \<and> Countdown_next (Countdown_after 4 (Countdown_init 5)) \<noteq> Inl StopIteration"
proof -
  have h: "(1::int) \<le> 5" by simp
  have u: "[0..<nat 5] = [0, 1, 2, 3, 4]" by (simp add: eval_nat_numeral upt_rec)
  have c5: "current (Countdown_after 5 (Countdown_init 5)) = 0"
    by (simp add: eval_nat_numeral Countdown_next_def Countdown_init_def Let_def)
  have c4: "current (Countdown_after 4 (Countdown_init 5)) = 1"
    by (simp add: eval_nat_numeral Countdown_next_def Countdown_init_def Let_def)
  from Countdown_counts_down [OF h] u c5 c4 show ?thesis by simp
qed


subsection \<open>The \<open>accumulator\<close> generator\<close>

text \<open>
  Claim C6. The usage comments of the \<open>accumulator\<close> cell announce the outputs
  \<open>0\<close>, \<open>10\<close> and \<open>30\<close> for the three sends after priming. The code prints
  \<open>10\<close>, \<open>30\<close> and \<open>60\<close>: each \<open>send\<close> returns the total after the sent
  value has been added.
\<close>

theorem accumulator_usage_outputs:
  "accumulator_usage = [Inr 10, Inr 30, Inr 60]"
  by (simp add: accumulator_usage_def accumulator_next_def accumulator_def)

section \<open>Properties of the decorators\<close>

subsection \<open>\<open>validate_input\<close>\<close>

text \<open>
  Claim C7. The decorated \<open>multiply\<close> raises \<open>ValueError\<close> if and only if at least
  one of its two arguments is not an \<open>int\<close> (in the sense of \<open>isinstance\<close>, which
  takes a \<open>bool\<close> for an \<open>int\<close>), and for two \<open>int\<close> arguments it returns their
  product.
\<close>

theorem validate_input_multiply:
  "(multiply x y = Inl ValueError) = (\<not> isinstance_int x \<or> \<not> isinstance_int y)
   \<and> (\<forall>a b. as_int x = Some a \<and> as_int y = Some b \<longrightarrow> multiply x y = Inr (PyInt (a * b)))
   \<and> (isinstance_int x \<and> isinstance_int y \<longrightarrow> (\<exists>a b. as_int x = Some a \<and> as_int y = Some b))"
  by (cases x; cases y)
     (simp_all add: multiply_def validate_input_def multiply_func_def py_mul_def)

text \<open>The call of the notebook, \<open>multiply(2, "3")\<close>, and two calls on integers.\<close>

theorem validate_input_multiply_witness:
  "multiply (PyInt 2) (PyStr ''3'') = Inl ValueError
   \<and> multiply (PyInt 2) (PyInt 3) = Inr (PyInt 6)
   \<and> multiply (PyBool True) (PyInt 3) = Inr (PyInt 3)"
  using validate_input_multiply [of "PyInt 2" "PyStr ''3''"]
    validate_input_multiply [of "PyInt 2" "PyInt 3"]
    validate_input_multiply [of "PyBool True" "PyInt 3"]
  by simp

subsection \<open>Keyword arguments to \<open>memoize\<close> and \<open>cache_results\<close>\<close>

lemma bind_star_args_keyword:
  "kwargs \<noteq> [] \<Longrightarrow>
   bind \<lparr>named = [], var_positional = True, var_keyword = False\<rparr> args kwargs = Inl TypeError"
proof -
  assume "kwargs \<noteq> []"
  then obtain name v rest where "kwargs = (name, v) # rest"
    by (cases kwargs) auto
  then show ?thesis by (simp add: bind_def)
qed

lemma bind_star_args_positional:
  "bind \<lparr>named = [], var_positional = True, var_keyword = False\<rparr> args []
   = Inr \<lparr>named_values = [], star_args = args, star_kwargs = []\<rparr>"
  by (simp add: bind_def)

text \<open>
  Claim C9. The wrappers returned by \<open>memoize\<close> and \<open>cache_results\<close> take
  positional arguments only: whatever the wrapped function (and whatever keywords it
  accepts), a call of the wrapper that passes a keyword argument raises \<open>TypeError\<close>,
  and a call with positional arguments alone runs the body on them.
\<close>

theorem star_args_wrapper_rejects_keywords:
  "(kwargs \<noteq> [] \<longrightarrow>
      memoize_wrapper key_of func args kwargs cache = Inl TypeError
      \<and> cache_results_wrapper key_of' func' args kwargs st = Inl TypeError)
   \<and> memoize_wrapper key_of func args [] cache
       = memoize key_of (\<lambda>args'. func args' []) args cache
   \<and> cache_results_wrapper key_of' func' args [] st
       = cache_results key_of' (\<lambda>args'. func' args' []) args st"
  by (simp add: memoize_wrapper_def cache_results_wrapper_def
      bind_star_args_keyword bind_star_args_positional)

text \<open>
  \<open>compute_expensive(x=4)\<close>: the undecorated function accepts the keyword and returns
  \<open>16\<close>, the decorated one raises; \<open>compute_expensive(4)\<close> returns \<open>16\<close>.
\<close>

theorem star_args_wrapper_rejects_keywords_witness:
  "compute_expensive_func [] [(''x'', PyInt 4)] (Map.empty, []) = Inr (PyInt 16, (Map.empty, []))
   \<and> compute_expensive [] [(''x'', PyInt 4)] (Map.empty, []) = Inl TypeError
   \<and> memoize_wrapper tuple_key compute_expensive_func [] [(''x'', PyInt 4)] Map.empty = Inl TypeError
   \<and> map_sum id fst (compute_expensive [PyInt 4] [] (Map.empty, [])) = Inr (PyInt 16)"
  using star_args_wrapper_rejects_keywords [where kwargs = "[(''x'', PyInt 4)]"
      and key_of = tuple_key and func = compute_expensive_func and args = "[]" and cache = Map.empty
      and key_of' = tuple_key and func' = compute_expensive_func and st = "(Map.empty, [])"]
    star_args_wrapper_rejects_keywords [where kwargs = "[]"
      and key_of = tuple_key and func = compute_expensive_func and args = "[PyInt 4]" and cache = Map.empty
      and key_of' = tuple_key and func' = compute_expensive_func and st = "(Map.empty, [])"]
  by (simp add: compute_expensive_def compute_expensive_func_def bind_def py_mul_def
      cache_results_def)

text \<open>
  The wrapper of \<open>repeat\<close>, declared with \<open>**kwargs\<close>, takes the keyword and
  passes it on: \<open>greet(name="Alice")\<close> prints its three lines.
\<close>

lemma repeat_wrapper_accepts_keywords:
  "greet_wrapper [] [(''name'', ''Alice'')] []
   = Inr ((), [''Hello Alice'', ''Hello Alice'', ''Hello Alice''])"
  by (simp add: greet_wrapper_def repeat_wrapper_def greet_callable_def bind_def repeat_def
      greet_func_def eval_nat_numeral)

subsection \<open>\<open>repeat\<close>\<close>















subsection \<open>\<open>memoize\<close>\<close>

declare fibonacci.simps [simp del] fibonacci_func.simps [simp del]

lemma fibonacci_spec_rec:
  "fibonacci_spec n = (if n < 2 then n else fibonacci_spec (n - 1) + fibonacci_spec (n - 2))"
proof (cases "n < 2")
  case True
  then consider "n < 0" | "n = 0" | "n = 1" by linarith
  then show ?thesis by cases (simp_all add: fibonacci_spec_def)
next
  case False
  then have a: "nat n = Suc (Suc (nat (n - 2)))" and b: "nat (n - 1) = Suc (nat (n - 2))" by linarith+
  from False have "fibonacci_spec n = Fib (Suc (Suc (nat (n - 2))))"
    by (simp only: fibonacci_spec_def a) simp
  moreover from False have "fibonacci_spec (n - 1) = Fib (Suc (nat (n - 2)))"
    by (simp only: fibonacci_spec_def b) simp
  moreover from False have "fibonacci_spec (n - 2) = Fib (nat (n - 2))"
    by (simp add: fibonacci_spec_def)
  ultimately show ?thesis using False by simp
qed

lemma fibonacci_memoized:
  "\<forall>k r. cache k = Some r \<longrightarrow> r = fibonacci_spec k \<Longrightarrow>
   \<exists>cache'. fibonacci n cache = Inr (fibonacci_spec n, cache')
      \<and> (\<forall>k r. cache' k = Some r \<longrightarrow> r = fibonacci_spec k)"
proof (induction "nat n" arbitrary: n cache rule: less_induct)
  case less
  note sound = less.prems
  show ?case
  proof (cases "cache n")
    case (Some cached)
    with sound have "cached = fibonacci_spec n" by blast
    with Some have "fibonacci n cache = Inr (fibonacci_spec n, cache)"
      by (simp add: fibonacci.simps [of n cache])
    with sound show ?thesis by blast
  next
    case None
    have body: "\<exists>cache1. fibonacci_func n cache = Inr (fibonacci_spec n, cache1)
                  \<and> (\<forall>k r. cache1 k = Some r \<longrightarrow> r = fibonacci_spec k)"
    proof (cases "n < 2")
      case True
      then have "fibonacci_spec n = n" by (subst fibonacci_spec_rec) simp
      with True have "fibonacci_func n cache = Inr (fibonacci_spec n, cache)"
        by (simp add: fibonacci_func.simps [of n cache])
      with sound show ?thesis by blast
    next
      case False
      then have "nat (n - 1) < nat n" "nat (n - 2) < nat n" by linarith+
      from less.hyps [OF this(1) sound]
      obtain c1 where one: "fibonacci (n - 1) cache = Inr (fibonacci_spec (n - 1), c1)"
        and s1: "\<forall>k r. c1 k = Some r \<longrightarrow> r = fibonacci_spec k" by blast
      from less.hyps [OF \<open>nat (n - 2) < nat n\<close> s1]
      obtain c2 where two: "fibonacci (n - 2) c1 = Inr (fibonacci_spec (n - 2), c2)"
        and s2: "\<forall>k r. c2 k = Some r \<longrightarrow> r = fibonacci_spec k" by blast
      have "fibonacci_spec n = fibonacci_spec (n - 1) + fibonacci_spec (n - 2)"
        using False by (subst fibonacci_spec_rec) simp
      with False one two have "fibonacci_func n cache = Inr (fibonacci_spec n, c2)"
        by (simp add: fibonacci_func.simps [of n cache])
      with s2 show ?thesis by blast
    qed
    then obtain cache1 where run: "fibonacci_func n cache = Inr (fibonacci_spec n, cache1)"
      and s1: "\<forall>k r. cache1 k = Some r \<longrightarrow> r = fibonacci_spec k" by blast
    from None run have "fibonacci n cache = Inr (fibonacci_spec n, cache1(n \<mapsto> fibonacci_spec n))"
      by (simp add: fibonacci.simps [of n cache])
    moreover from s1 have "\<forall>k r. (cache1(n \<mapsto> fibonacci_spec n)) k = Some r \<longrightarrow> r = fibonacci_spec k"
      by auto
    ultimately show ?thesis by blast
  qed
qed

text \<open>The decorated \<open>fibonacci\<close> is the wrapper of \<open>memoize\<close> around its body.\<close>

lemma fibonacci_is_memoize:
  "fibonacci n cache = memoize Some fibonacci_func n cache"
  by (simp add: memoize_def fibonacci.simps [of n cache])

lemma fibonacci_spec_10: "fibonacci_spec 10 = 55"
  by (simp add: fibonacci_spec_def eval_nat_numeral)



lemma memoize_pure_function:
  assumes key: "key_of args = Some k"
    and respects: "\<forall>a b. key_of a \<noteq> None \<longrightarrow> key_of a = key_of b \<longrightarrow> f a = f b"
    and sound: "\<forall>a k r. key_of a = Some k \<longrightarrow> cache k = Some r \<longrightarrow> r = f a"
  shows "\<exists>cache'. memoize key_of (pure_function f) args cache = Inr (f args, cache')
           \<and> (\<forall>a k r. key_of a = Some k \<longrightarrow> cache' k = Some r \<longrightarrow> r = f a)"
proof (cases "cache k")
  case (Some cached)
  with key sound have "cached = f args" by blast
  with Some key have "memoize key_of (pure_function f) args cache = Inr (f args, cache)"
    by (simp add: memoize_def)
  with sound show ?thesis by blast
next
  case None
  let ?cache' = "cache(k \<mapsto> f args)"
  have run: "memoize key_of (pure_function f) args cache = Inr (f args, ?cache')"
    using None key by (simp add: memoize_def pure_function_def)
  have "r = f a" if a: "key_of a = Some k'" and r: "?cache' k' = Some r" for a k' r
  proof (cases "k' = k")
    case True
    with a key have "key_of args \<noteq> None" "key_of args = key_of a" by simp_all
    with respects have "f args = f a" by blast
    with True r show ?thesis by simp
  next
    case False
    with r have "cache k' = Some r" by simp
    with a sound show ?thesis by blast
  qed
  then have "\<forall>a k r. key_of a = Some k \<longrightarrow> ?cache' k = Some r \<longrightarrow> r = f a" by blast
  with run show ?thesis by blast
qed

lemma call_each_memoize:
  assumes respects: "\<forall>a b. key_of a \<noteq> None \<longrightarrow> key_of a = key_of b \<longrightarrow> f a = f b"
  shows "\<forall>args \<in> set calls. key_of args \<noteq> None \<Longrightarrow>
         \<forall>a k r. key_of a = Some k \<longrightarrow> cache k = Some r \<longrightarrow> r = f a \<Longrightarrow>
         \<exists>cache'. call_each (memoize key_of (pure_function f)) calls cache = Inr (map f calls, cache')"
proof (induction calls arbitrary: cache)
  case Nil
  show ?case by simp
next
  case (Cons args calls)
  from Cons.prems(1) obtain k where k: "key_of args = Some k" by auto
  from memoize_pure_function [OF k respects Cons.prems(2)]
  obtain cache1 where step: "memoize key_of (pure_function f) args cache = Inr (f args, cache1)"
    and sound1: "\<forall>a k r. key_of a = Some k \<longrightarrow> cache1 k = Some r \<longrightarrow> r = f a"
    by blast
  from Cons.prems(1) have "\<forall>args \<in> set calls. key_of args \<noteq> None" by simp
  from Cons.IH [OF this sound1]
  obtain cache2 where "call_each (memoize key_of (pure_function f)) calls cache1 = Inr (map f calls, cache2)"
    by blast
  with step show ?case by simp
qed


text \<open>
  Claim C2, amended. Let \<open>f\<close> be a function whose result depends only on its
  positional arguments and is the same for argument tuples that are one dictionary key
  (tuples equal under \<open>==\<close>, such as \<open>(1,)\<close> and \<open>(True,)\<close>). Then in every
  sequence of calls with hashable argument tuples, starting from the empty cache, the
  wrapper returned by \<open>memoize(f)\<close> returns at each call the value \<open>f\<close> returns on
  the arguments, whether or not the tuple is already in the cache. The memoized
  \<open>fibonacci\<close> applied to \<open>10\<close> returns \<open>55\<close>.
\<close>

theorem memoize_returns_what_func_returns:
  assumes "\<forall>args \<in> set calls. key_of args \<noteq> None"
    and "\<forall>a b. key_of a \<noteq> None \<longrightarrow> key_of a = key_of b \<longrightarrow> f a = f b"
  shows "map_sum id fst (call_each (memoize key_of (pure_function f)) calls Map.empty) = Inr (map f calls)
       \<and> map_sum id fst (fibonacci 10 Map.empty) = Inr 55"
proof -
  have "\<forall>a k r. key_of a = Some k \<longrightarrow> Map.empty k = Some r \<longrightarrow> r = f a" by simp
  from call_each_memoize [OF assms(2) assms(1) this]
  obtain cache' where "call_each (memoize key_of (pure_function f)) calls Map.empty = Inr (map f calls, cache')"
    by blast
  moreover have "\<forall>k r. Map.empty k = Some r \<longrightarrow> r = fibonacci_spec k" by simp
  from fibonacci_memoized [OF this, of 10]
  obtain cache'' where "fibonacci 10 Map.empty = Inr (fibonacci_spec 10, cache'')"
    by blast
  ultimately show ?thesis
    by (simp add: fibonacci_spec_10)
qed

text \<open>Squaring integers, each its own key, with a repeated argument.\<close>

theorem memoize_returns_what_func_returns_witness:
  "map_sum id fst (call_each (memoize Some (pure_function (\<lambda>x::int. x * x))) [4, 4, 5] Map.empty)
     = Inr [16, 16, 25]"
proof -
  have h1: "\<forall>args \<in> set [4, 4, 5 :: int]. Some args \<noteq> None" by simp
  have h2: "\<forall>a b :: int. Some a \<noteq> None \<longrightarrow> Some a = Some b \<longrightarrow> a * a = b * b" by simp
  from memoize_returns_what_func_returns [OF h1 h2] show ?thesis by simp
qed

text \<open>
  Without the two provisos the wrapper differs from the function: on a list argument
  the lookup \<open>args in cache\<close> raises \<open>TypeError\<close> where \<open>type_names\<close> returns
  \<open>['list']\<close>; and after the call on \<open>1\<close> the call on \<open>True\<close> finds the
  entry of \<open>1\<close> and returns \<open>['int']\<close> where \<open>type_names\<close> returns
  \<open>['bool']\<close>.
\<close>

theorem memoize_counterexample:
  "call_each (memoize tuple_key (pure_function type_names)) [[PyList []]] Map.empty = Inl TypeError
   \<and> type_names [PyList []] = PyList [PyStr ''list'']
   \<and> map_sum id fst (call_each (memoize tuple_key (pure_function type_names)) [[PyInt 1], [PyBool True]] Map.empty)
       = Inr [PyList [PyStr ''int''], PyList [PyStr ''int'']]
   \<and> type_names [PyBool True] = PyList [PyStr ''bool'']"
  by (simp add: memoize_def pure_function_def type_names_def)



section \<open>Properties of the design patterns\<close>

subsection \<open>The singleton\<close>

lemma SingletonMeta_call_stored:
  "instances m cls = Some obj \<Longrightarrow> SingletonMeta_call cls m = Inr (obj, m)"
  by (simp add: SingletonMeta_call_def)

lemma SingletonMeta_call_new:
  "instances m cls = None \<Longrightarrow>
   SingletonMeta_call cls m
     = Inr (next_address m, m\<lparr>instances := (instances m)(cls \<mapsto> next_address m),
                               next_address := Suc (next_address m)\<rparr>)"
  by (simp add: SingletonMeta_call_def)

lemma SingletonMeta_call_keeps:
  assumes "instances m c = Some obj" and "SingletonMeta_call cls m = Inr (obj', m')"
  shows "instances m' c = Some obj"
proof (cases "instances m cls")
  case None
  with assms(1) have "cls \<noteq> c" by auto
  with assms None show ?thesis by (auto simp: SingletonMeta_call_new)
next
  case (Some stored)
  with assms show ?thesis by (simp add: SingletonMeta_call_stored)
qed

lemma SingletonMeta_calls_keep:
  "instances m c = Some obj \<Longrightarrow> instances (SingletonMeta_calls clss m) c = Some obj"
proof (induction clss arbitrary: m)
  case Nil
  then show ?case by simp
next
  case (Cons cls clss)
  show ?case
  proof (cases "SingletonMeta_call cls m")
    case (Inl e)
    with Cons show ?thesis by simp
  next
    case (Inr p)
    obtain obj' m' where p: "p = (obj', m')" by (cases p)
    with Inr Cons.prems have "instances m' c = Some obj"
      by (auto dest: SingletonMeta_call_keeps)
    with Inr p Cons.IH show ?thesis by simp
  qed
qed

text \<open>
  Claim C4. Every call \<open>Logger()\<close> returns one and the same instance: from any state
  of \<open>_instances\<close>, the first call returns an instance that is then the one stored
  for the class, the next call returns that very instance, and so does every later call,
  whatever classes are instantiated in between; the stored instance of a class is never
  replaced.
\<close>

theorem Logger_is_singleton:
  "\<exists>logger1 m1. SingletonMeta_call cls m = Inr (logger1, m1)
      \<and> instances m1 cls = Some logger1
      \<and> SingletonMeta_call cls m1 = Inr (logger1, m1)
      \<and> (\<forall>clss. SingletonMeta_call cls (SingletonMeta_calls clss m1)
                   = Inr (logger1, SingletonMeta_calls clss m1))"
proof -
  obtain logger1 m1 where first: "SingletonMeta_call cls m = Inr (logger1, m1)"
    and stored: "instances m1 cls = Some logger1"
  proof (cases "instances m cls")
    case None
    then show ?thesis using that by (simp add: SingletonMeta_call_new)
  next
    case (Some obj)
    then show ?thesis using that by (simp add: SingletonMeta_call_stored)
  qed
  have "SingletonMeta_call cls (SingletonMeta_calls clss m1) = Inr (logger1, SingletonMeta_calls clss m1)"
    for clss
    by (intro SingletonMeta_call_stored SingletonMeta_calls_keep stored)
  with first stored show ?thesis
    by (auto simp: SingletonMeta_call_stored)
qed

subsection \<open>The observers\<close>

lemma update_concrete:
  "concrete obs \<Longrightarrow>
   update obs message w
     = (None, w\<lparr>update_calls := update_calls w @ [(obs, message)],
               stdout := stdout w @ [printed_line obs message]\<rparr>)"
  by (cases "class_of obs") (simp_all add: update_def concrete_def printed_line_def Let_def)

lemma notify_for_concrete:
  "\<forall>obs \<in> set os. concrete obs \<Longrightarrow>
   notify_for os message w
     = (None, w\<lparr>update_calls := update_calls w @ map (\<lambda>obs. (obs, message)) os,
               stdout := stdout w @ map (\<lambda>obs. printed_line obs message) os\<rparr>)"
proof (induction os arbitrary: w)
  case Nil
  show ?case by simp
next
  case (Cons obs os)
  then have "concrete obs" and rest: "\<forall>obs \<in> set os. concrete obs" by simp_all
  then show ?case
    by (simp add: update_concrete Cons.IH [OF rest])
qed

lemma notify_keeps_subject: "fst (snd (notify self message w)) = self"
  by (simp add: notify_def split: prod.splits)

text \<open>
  Claim C8, amended. \<open>Subject.notify(message)\<close> leaves the observer list unchanged in
  every case. When every entry of the list is a concrete observer (an instance of
  \<open>ConcreteObserverA\<close> or \<open>ConcreteObserverB\<close>, whose \<open>update\<close> returns), it calls
  \<open>update(message)\<close> exactly once on each entry, in list order, each call printing
  its line, and raises nothing.
\<close>

theorem notify_updates_each_observer:
  "fst (snd (notify self message w)) = self
   \<and> ((\<forall>obs \<in> set (observers self). concrete obs) \<longrightarrow>
        notify self message w
          = (None, self,
             w\<lparr>update_calls := update_calls w @ map (\<lambda>obs. (obs, message)) (observers self),
               stdout := stdout w @ map (\<lambda>obs. printed_line obs message) (observers self)\<rparr>))"
  by (simp add: notify_keeps_subject) (simp add: notify_def notify_for_concrete)

text \<open>The usage of the notebook: observers A and B attached, then notified.\<close>

theorem notify_updates_each_observer_witness:
  "notify (attach (attach Subject_init \<lparr>address = 0, class_of = ConcreteObserverA\<rparr>)
                  \<lparr>address = 1, class_of = ConcreteObserverB\<rparr>)
     ''Hello, Observers!'' \<lparr>stdout = [], update_calls = []\<rparr>
   = (None,
      \<lparr>observers = [\<lparr>address = 0, class_of = ConcreteObserverA\<rparr>,
                    \<lparr>address = 1, class_of = ConcreteObserverB\<rparr>]\<rparr>,
      \<lparr>stdout = [''ConcreteObserverA received: Hello, Observers!'',
                 ''ConcreteObserverB received: Hello, Observers!''],
       update_calls = [(\<lparr>address = 0, class_of = ConcreteObserverA\<rparr>, ''Hello, Observers!''),
                       (\<lparr>address = 1, class_of = ConcreteObserverB\<rparr>, ''Hello, Observers!'')]\<rparr>)"
  using notify_updates_each_observer
    [of "attach (attach Subject_init \<lparr>address = 0, class_of = ConcreteObserverA\<rparr>)
                \<lparr>address = 1, class_of = ConcreteObserverB\<rparr>"
        "''Hello, Observers!''" "\<lparr>stdout = [], update_calls = []\<rparr>"]
  by (simp add: attach_def Subject_init_def concrete_def printed_line_def)

text \<open>
  An instance of the base class \<open>Observer\<close> followed by a concrete observer: the
  first \<open>update\<close> raises \<open>NotImplementedError\<close>, the loop ends, and \<open>update\<close> is
  never called on the second entry.
\<close>

theorem notify_counterexample:
  "notify \<lparr>observers = [\<lparr>address = 0, class_of = Observer\<rparr>,
                        \<lparr>address = 1, class_of = ConcreteObserverA\<rparr>]\<rparr>
     ''Hello'' \<lparr>stdout = [], update_calls = []\<rparr>
   = (Some NotImplementedError,
      \<lparr>observers = [\<lparr>address = 0, class_of = Observer\<rparr>,
                    \<lparr>address = 1, class_of = ConcreteObserverA\<rparr>]\<rparr>,
      \<lparr>stdout = [], update_calls = [(\<lparr>address = 0, class_of = Observer\<rparr>, ''Hello'')]\<rparr>)"
  by (simp add: notify_def update_def Let_def)


end
